theory Spec2Isabelle
  imports Main
begin

section \<open>Shared types (game.types.ts)\<close>

datatype GameState = Idle | Playing | Completed

record LevelResult =
  completed :: bool
  skipped :: bool
  timeSpent :: int

record GameContainerState =
  gameState :: GameState
  currentLevel :: int
  startTime :: "int option"
  totalTime :: int
  levelResults :: "LevelResult option list"
  showSkipButton :: bool

text \<open>
  Numbers are integers (timestamps of \<^verbatim>\<open>Date.now()\<close>, level numbers, milliseconds).
  A JavaScript array is a list of optional elements: \<open>None\<close> is a hole, read as
  \<^verbatim>\<open>undefined\<close>. Writing at an index beyond the end extends the array with holes,
  writing at a negative index sets a property that is not an element.
\<close>

definition arrayWrite :: "'a option list \<Rightarrow> int \<Rightarrow> 'a \<Rightarrow> 'a option list" where
  "arrayWrite xs i v =
     (if i < 0 then xs
      else if nat i < length xs then xs[nat i := Some v]
      else xs @ replicate (nat i - length xs) None @ [Some v])"

definition arrayRead :: "'a option list \<Rightarrow> int \<Rightarrow> 'a option" where
  "arrayRead xs i = (if 0 \<le> i \<and> nat i < length xs then xs ! nat i else None)"

section \<open>The game container (GameContainer.tsx)\<close>

text \<open>
  The component owns two state cells, \<^verbatim>\<open>state\<close> and \<^verbatim>\<open>skipButtonTimer\<close>, and the
  timeouts it has scheduled with \<^verbatim>\<open>setTimeout\<close>. A pending timeout is its handle and
  its delay; every timeout the container schedules has the same callback,
  \<^verbatim>\<open>setState(prev => ({...prev, showSkipButton: true}))\<close>. Handles are the positive
  numbers a browser hands out, so a stored handle is always truthy.

  The microgames call \<^verbatim>\<open>onComplete\<close> from a timeout of their own (300 ms in ColorMatch,
  500 ms in DirectionMatch and SequenceMemory), which nothing cancels, not even the
  unmounting of the instance. What such a timeout calls is the \<^verbatim>\<open>handleLevelComplete\<close>
  of the render in which the solving tap happened. The field \<open>completions\<close> holds these
  scheduled calls, each as the pair of \<^verbatim>\<open>state\<close> and \<^verbatim>\<open>skipButtonTimer\<close> its closure
  reads.
\<close>

record Container =
  state :: GameContainerState
  skipButtonTimer :: "nat option"
  timeouts :: "(nat \<times> nat) list"
  nextHandle :: nat
  completions :: "(GameContainerState \<times> nat option) list"

definition defaultResult :: LevelResult where
  "defaultResult = \<lparr>completed = False, skipped = False, timeSpent = 0\<rparr>"

definition initialState :: GameContainerState where
  "initialState =
     \<lparr>gameState = Idle, currentLevel = 1, startTime = None, totalTime = 0,
      levelResults = replicate 5 (Some defaultResult), showSkipButton = False\<rparr>"

definition initialContainer :: Container where
  "initialContainer =
     \<lparr>state = initialState, skipButtonTimer = None, timeouts = [], nextHandle = 1,
      completions = []\<rparr>"

text \<open>
  \<^verbatim>\<open>setState(f)\<close> queues the updater \<open>f\<close>; the queued updaters of one handler are
  applied in order to the latest state, so applying each at once gives the same result.
  \<^verbatim>\<open>setState(obj)\<close> is the constant updater.
\<close>

definition setState :: "(GameContainerState \<Rightarrow> GameContainerState) \<Rightarrow> Container \<Rightarrow> Container" where
  "setState f w = w\<lparr>state := f (state w)\<rparr>"

definition setTimeout :: "nat \<Rightarrow> Container \<Rightarrow> nat \<times> Container" where
  "setTimeout delay w =
     (nextHandle w,
      w\<lparr>timeouts := timeouts w @ [(nextHandle w, delay)], nextHandle := nextHandle w + 1\<rparr>)"

definition clearTimeout :: "nat \<Rightarrow> Container \<Rightarrow> Container" where
  "clearTimeout h w = w\<lparr>timeouts := filter (\<lambda>p. fst p \<noteq> h) (timeouts w)\<rparr>"

text \<open>\<^verbatim>\<open>if (skipButtonTimer) clearTimeout(skipButtonTimer)\<close>\<close>

definition clearIfSet :: "nat option \<Rightarrow> Container \<Rightarrow> Container" where
  "clearIfSet tm w = (case tm of None \<Rightarrow> w | Some h \<Rightarrow> clearTimeout h w)"

text \<open>
  A handler is a closure of the render that created it: it reads \<^verbatim>\<open>state\<close> and
  \<^verbatim>\<open>skipButtonTimer\<close> as they were at that render (the arguments \<open>st\<close> and \<open>tm\<close>),
  whatever has been queued since, while an updater \<^verbatim>\<open>prev => ...\<close> reads the latest
  state. Each call of \<^verbatim>\<open>Date.now()\<close> is an argument of its own.
\<close>

definition startGame :: "int \<Rightarrow> Container \<Rightarrow> Container" where
  "startGame now w =
     (let w1 = setState (\<lambda>_. \<lparr>gameState = Playing, currentLevel = 1, startTime = Some now,
                               totalTime = 0, levelResults = replicate 5 (Some defaultResult),
                               showSkipButton = False\<rparr>) w;
          (timer, w2) = setTimeout 5000 w1
      in w2\<lparr>skipButtonTimer := Some timer\<rparr>)"

definition endGame :: "GameContainerState \<Rightarrow> nat option \<Rightarrow> int \<Rightarrow> Container \<Rightarrow> Container" where
  "endGame st tm now w =
     (let w1 = clearIfSet tm w;
          finalTime = (case startTime st of
                         None \<Rightarrow> totalTime st
                       | Some s \<Rightarrow> if s \<noteq> 0 then now - s + totalTime st else totalTime st)
      in setState (\<lambda>prev. prev\<lparr>gameState := Completed, totalTime := finalTime,
                                showSkipButton := False\<rparr>) w1)"

definition handleLevelComplete ::
  "GameContainerState \<Rightarrow> nat option \<Rightarrow> int \<Rightarrow> int \<Rightarrow> Container \<Rightarrow> Container" where
  "handleLevelComplete st tm now nowEnd w =
     (let timeSpent = (case startTime st of
                         None \<Rightarrow> 0
                       | Some s \<Rightarrow> if s \<noteq> 0 then now - s else 0);
          newLevelResults = arrayWrite (levelResults st) (currentLevel st - 1)
                              \<lparr>completed = True, skipped = False, timeSpent = timeSpent\<rparr>
      in if currentLevel st \<ge> 5 then endGame st tm nowEnd w
         else
           (let w1 = setState (\<lambda>prev. prev\<lparr>currentLevel := currentLevel prev + 1,
                                            levelResults := newLevelResults,
                                            showSkipButton := False\<rparr>) w;
                w2 = clearIfSet tm w1;
                (timer, w3) = setTimeout 5000 w2
            in w3\<lparr>skipButtonTimer := Some timer\<rparr>))"

definition handleSkip ::
  "GameContainerState \<Rightarrow> nat option \<Rightarrow> int \<Rightarrow> int \<Rightarrow> int \<Rightarrow> Container \<Rightarrow> Container" where
  "handleSkip st tm now nowComplete nowEnd w =
     (let timeSpent = (case startTime st of
                         None \<Rightarrow> 0
                       | Some s \<Rightarrow> if s \<noteq> 0 then now - s else 0);
          newLevelResults = arrayWrite (levelResults st) (currentLevel st - 1)
                              \<lparr>completed = False, skipped = True, timeSpent = timeSpent\<rparr>;
          w1 = setState (\<lambda>prev. prev\<lparr>totalTime := totalTime prev + 30000,
                                       levelResults := newLevelResults\<rparr>) w
      in handleLevelComplete st tm nowComplete nowEnd w1)"

definition resetGame :: "nat option \<Rightarrow> Container \<Rightarrow> Container" where
  "resetGame tm w = setState (\<lambda>_. initialState) (clearIfSet tm w)"

text \<open>The callback of the skip-visibility timeout.\<close>

definition showSkip :: "Container \<Rightarrow> Container" where
  "showSkip w = setState (\<lambda>prev. prev\<lparr>showSkipButton := True\<rparr>) w"

text \<open>
  \<^verbatim>\<open>useEffect(() => () => { if (skipButtonTimer) clearTimeout(skipButtonTimer) }, [skipButtonTimer])\<close>:
  the cleanup of the previous render runs when the cell has changed, with the value of
  that previous render, and it runs with the current value when the component unmounts.
\<close>

definition rerender :: "nat option \<Rightarrow> Container \<Rightarrow> Container" where
  "rerender old w = (if skipButtonTimer w \<noteq> old then clearIfSet old w else w)"




subsection \<open>The events of the container\<close>

text \<open>
  A click runs the handler of the latest render, so the closure of \<open>Start\<close>, \<open>Skip\<close>
  and \<open>Restart\<close> holds the state the event finds. The render decides which of them
  exist: the start button is rendered when idle, the microgame and the skip button when
  playing, the skip button only while \<^verbatim>\<open>showSkipButton\<close> holds, and the results screen
  with its restart button when completed. A timeout fires only while it is pending.
  \<open>None\<close> says that the event cannot happen in that state.

  The completion signal has two forms. \<open>Solve\<close> is the solving tap in the microgame of
  the active level: it schedules a call of the \<^verbatim>\<open>handleLevelComplete\<close> of the latest
  render. \<open>LateComplete k\<close> is the scheduled call at position \<open>k\<close> running: the handler
  reads the state and the timer cell of its own closure, its updates act on the latest
  state, and the effect cleanup that follows belongs to the latest render. Any
  scheduled call may be the next to run, whatever has happened since it was scheduled.
  \<open>Complete\<close> is the signal handled by the latest render itself, as when the microgame
  calls \<^verbatim>\<open>onComplete\<close> directly from a click.

  While playing with a level outside 1..5 there is no microgame to render
  (\<^verbatim>\<open>games[state.currentLevel - 1]\<close> is undefined); the events below stay defined there.
\<close>

datatype Event =
    Start int
  | Complete int int
  | Skip int int int
  | Restart
  | TimerFire nat
  | Solve
  | LateComplete nat int int

definition step :: "Event \<Rightarrow> Container \<Rightarrow> Container option" where
  "step e w =
     (let st = state w; tm = skipButtonTimer w in
      case e of
        Start now \<Rightarrow>
          if gameState st = Idle then Some (rerender tm (startGame now w)) else None
      | Complete now nowEnd \<Rightarrow>
          if gameState st = Playing
          then Some (rerender tm (handleLevelComplete st tm now nowEnd w)) else None
      | Skip now nowComplete nowEnd \<Rightarrow>
          if gameState st = Playing \<and> showSkipButton st
          then Some (rerender tm (handleSkip st tm now nowComplete nowEnd w)) else None
      | Restart \<Rightarrow>
          if gameState st = Completed then Some (rerender tm (resetGame tm w)) else None
      | TimerFire h \<Rightarrow>
          if h \<in> set (map fst (timeouts w)) then Some (showSkip (clearTimeout h w)) else None
      | Solve \<Rightarrow>
          if gameState st = Playing
          then Some (w\<lparr>completions := completions w @ [(st, tm)]\<rparr>) else None
      | LateComplete k now nowEnd \<Rightarrow>
          if k < length (completions w)
          then Some (rerender tm
                 (handleLevelComplete (fst (completions w ! k)) (snd (completions w ! k)) now nowEnd
                    (w\<lparr>completions := take k (completions w) @ drop (Suc k) (completions w)\<rparr>)))
          else None)"

fun run :: "Event list \<Rightarrow> Container \<Rightarrow> Container option" where
  "run [] w = Some w"
| "run (e # es) w = (case step e w of None \<Rightarrow> None | Some w' \<Rightarrow> run es w')"



text \<open>
  A scheduled completion is timely when nothing but the visibility of the skip button
  has changed since it was scheduled: its closure holds the latest state, up to
  \<^verbatim>\<open>showSkipButton\<close>, and the latest timer cell. A run is timely when every scheduled
  completion that runs in it is.
\<close>

fun timely :: "Event \<Rightarrow> Container \<Rightarrow> bool" where
  "timely (LateComplete k now nowEnd) w =
     (k < length (completions w) \<and>
      fst (completions w ! k) =
        (state w)\<lparr>showSkipButton := showSkipButton (fst (completions w ! k))\<rparr> \<and>
      snd (completions w ! k) = skipButtonTimer w)"
| "timely e w = True"

fun timelyRun :: "Event list \<Rightarrow> Container \<Rightarrow> bool" where
  "timelyRun [] w = True"
| "timelyRun (e # es) w =
     (timely e w \<and> (case step e w of None \<Rightarrow> True | Some w' \<Rightarrow> timelyRun es w'))"

section \<open>The progress indicator (ProgressTracker.tsx)\<close>

text \<open>
  \<^verbatim>\<open>getLevelStatus\<close> closes over the props \<^verbatim>\<open>currentLevel\<close> and \<^verbatim>\<open>levelResults\<close>; its
  argument is the 0-based slot. Reading \<^verbatim>\<open>result.completed\<close> of a missing element
  throws a TypeError, the value \<open>None\<close> here.
\<close>

definition getLevelStatus :: "int \<Rightarrow> LevelResult option list \<Rightarrow> int \<Rightarrow> string option" where
  "getLevelStatus cur results levelIndex =
     (if levelIndex + 1 < cur then
        (case arrayRead results levelIndex of
           None \<Rightarrow> None
         | Some result \<Rightarrow>
             Some (if completed result then ''completed''
                   else if skipped result then ''skipped'' else ''pending''))
      else if levelIndex + 1 = cur then Some ''current''
      else Some ''pending'')"

section \<open>The microgames\<close>

text \<open>
  A microgame instance is its component state, the callbacks it has scheduled with
  \<^verbatim>\<open>setTimeout\<close> and not yet run (none of them is ever cancelled), and the number of
  times it has invoked \<^verbatim>\<open>onComplete\<close>. A tap runs the handler of the latest render.
  Reading a property of a missing array element throws a TypeError, the value \<open>None\<close>.
\<close>

subsection \<open>DirectionMatch.tsx\<close>

datatype Direction = Up | Down | Left | Right

record ArrowConfig =
  arrowId :: nat
  direction :: Direction
  rotation :: nat
  isTarget :: bool

record DirectionMatchState =
  targetDirection :: Direction
  arrows :: "ArrowConfig list"
  feedback :: "nat option"

datatype DMCallback = DMCallOnComplete | DMClearFeedback

record DirectionMatch =
  dmGameState :: DirectionMatchState
  dmTimeouts :: "(nat \<times> DMCallback) list"
  dmCompleted :: nat

datatype DMEvent = ArrowTap nat | DMTimeout nat

definition handleArrowTap :: "nat \<Rightarrow> DirectionMatch \<Rightarrow> DirectionMatch option" where
  "handleArrowTap index w =
     (if feedback (dmGameState w) \<noteq> None then Some w
      else if index < length (arrows (dmGameState w)) then
        (let arrow = arrows (dmGameState w) ! index in
         if isTarget arrow then
           Some (w\<lparr>dmGameState := (dmGameState w)\<lparr>feedback := Some index\<rparr>,
                   dmTimeouts := dmTimeouts w @ [(500, DMCallOnComplete)]\<rparr>)
         else
           Some (w\<lparr>dmGameState := (dmGameState w)\<lparr>feedback := Some index\<rparr>,
                   dmTimeouts := dmTimeouts w @ [(500, DMClearFeedback)]\<rparr>))
      else None)"

fun dmCallback :: "DMCallback \<Rightarrow> DirectionMatch \<Rightarrow> DirectionMatch" where
  "dmCallback DMCallOnComplete w = w\<lparr>dmCompleted := dmCompleted w + 1\<rparr>"
| "dmCallback DMClearFeedback w = w\<lparr>dmGameState := (dmGameState w)\<lparr>feedback := None\<rparr>\<rparr>"

text \<open>
  \<open>DMTimeout k\<close> runs the pending callback at position \<open>k\<close>: any pending callback may
  be the next to run, which covers every order the timers can produce.
\<close>

fun dmStep :: "DMEvent \<Rightarrow> DirectionMatch \<Rightarrow> DirectionMatch option" where
  "dmStep (ArrowTap index) w = handleArrowTap index w"
| "dmStep (DMTimeout k) w =
     (if k < length (dmTimeouts w)
      then Some (dmCallback (snd (dmTimeouts w ! k))
                   (w\<lparr>dmTimeouts := take k (dmTimeouts w) @ drop (Suc k) (dmTimeouts w)\<rparr>))
      else None)"

fun dmRun :: "DMEvent list \<Rightarrow> DirectionMatch \<Rightarrow> DirectionMatch option" where
  "dmRun [] w = Some w"
| "dmRun (e # es) w = (case dmStep e w of None \<Rightarrow> None | Some w' \<Rightarrow> dmRun es w')"

text \<open>The instance showing the puzzle \<open>g\<close>, before any tap.\<close>

definition dmActivate :: "DirectionMatchState \<Rightarrow> DirectionMatch" where
  "dmActivate g = \<lparr>dmGameState = g\<lparr>feedback := None\<rparr>, dmTimeouts = [], dmCompleted = 0\<rparr>"

subsection \<open>ColorMatch.tsx\<close>

record ColorOption =
  color :: string
  isCorrect :: bool

record ColorMatchState =
  targetColor :: string
  options :: "ColorOption list"
  selectedIndex :: "nat option"

datatype Feedback = FbNone | FbWrong | FbCorrect

datatype CMCallback = CMCallOnComplete | CMClearWrong

record ColorMatch =
  cmGameState :: ColorMatchState
  cmFeedback :: Feedback
  cmTimeouts :: "(nat \<times> CMCallback) list"
  cmCompleted :: nat

datatype CMEvent = OptionTap nat | CMTimeout nat

definition handleOptionTap :: "nat \<Rightarrow> ColorMatch \<Rightarrow> ColorMatch option" where
  "handleOptionTap index w =
     (if cmFeedback w \<noteq> FbNone then Some w
      else if index < length (options (cmGameState w)) then
        (let option = options (cmGameState w) ! index;
             w1 = w\<lparr>cmGameState := (cmGameState w)\<lparr>selectedIndex := Some index\<rparr>\<rparr> in
         if isCorrect option then
           Some (w1\<lparr>cmFeedback := FbCorrect,
                    cmTimeouts := cmTimeouts w1 @ [(300, CMCallOnComplete)]\<rparr>)
         else
           Some (w1\<lparr>cmFeedback := FbWrong,
                    cmTimeouts := cmTimeouts w1 @ [(500, CMClearWrong)]\<rparr>))
      else None)"

fun cmCallback :: "CMCallback \<Rightarrow> ColorMatch \<Rightarrow> ColorMatch" where
  "cmCallback CMCallOnComplete w = w\<lparr>cmCompleted := cmCompleted w + 1\<rparr>"
| "cmCallback CMClearWrong w =
     w\<lparr>cmFeedback := FbNone, cmGameState := (cmGameState w)\<lparr>selectedIndex := None\<rparr>\<rparr>"

fun cmStep :: "CMEvent \<Rightarrow> ColorMatch \<Rightarrow> ColorMatch option" where
  "cmStep (OptionTap index) w = handleOptionTap index w"
| "cmStep (CMTimeout k) w =
     (if k < length (cmTimeouts w)
      then Some (cmCallback (snd (cmTimeouts w ! k))
                   (w\<lparr>cmTimeouts := take k (cmTimeouts w) @ drop (Suc k) (cmTimeouts w)\<rparr>))
      else None)"

fun cmRun :: "CMEvent list \<Rightarrow> ColorMatch \<Rightarrow> ColorMatch option" where
  "cmRun [] w = Some w"
| "cmRun (e # es) w = (case cmStep e w of None \<Rightarrow> None | Some w' \<Rightarrow> cmRun es w')"

definition cmActivate :: "ColorMatchState \<Rightarrow> ColorMatch" where
  "cmActivate g =
     \<lparr>cmGameState = g\<lparr>selectedIndex := None\<rparr>, cmFeedback = FbNone,
      cmTimeouts = [], cmCompleted = 0\<rparr>"

subsection \<open>SequenceMemory.tsx\<close>

datatype SMPhase = Showing | Input

datatype TapFeedback = TapCorrect | TapWrong

record SequenceMemoryState =
  sequence :: "nat list"
  playerSequence :: "nat list"
  isPlaying :: bool
  currentFlash :: "nat option"
  phase :: SMPhase
  buttonFeedback :: "nat \<rightharpoonup> TapFeedback option"

text \<open>
  The callbacks of this component run at different delays, 300 ms and 500 ms, so the
  order in which they run depends on when they were scheduled: a pending callback
  carries the time at which it is due, and a tap carries the time at which it happens.
\<close>

datatype SMCallback = SMClearFeedback nat | SMCallOnComplete | SMResetPlayer

record SequenceMemory =
  smGameState :: SequenceMemoryState
  smTimeouts :: "(int \<times> SMCallback) list"
  smCompleted :: nat

definition smInitial :: SequenceMemoryState where
  "smInitial =
     \<lparr>sequence = [], playerSequence = [], isPlaying = False, currentFlash = None,
      phase = Showing, buttonFeedback = Map.empty\<rparr>"

text \<open>
  \<^verbatim>\<open>playSequence\<close> applies its updates one after the other, with delays between them;
  no tap is accepted before the last one, so the state it leaves is their composition.
\<close>

definition playSequence :: "nat list \<Rightarrow> SequenceMemoryState \<Rightarrow> SequenceMemoryState" where
  "playSequence sq st =
     (let s1 = st\<lparr>phase := Showing, isPlaying := True, playerSequence := [],
                  buttonFeedback := Map.empty\<rparr>;
          s2 = fold (\<lambda>buttonIndex s. (s\<lparr>currentFlash := Some buttonIndex\<rparr>)\<lparr>currentFlash := None\<rparr>)
                 sq s1
      in s2\<lparr>phase := Input, isPlaying := False, currentFlash := None, playerSequence := []\<rparr>)"

text \<open>
  The instance once the mount effect has stored the generated sequence \<open>sq\<close> and the
  playback has ended.
\<close>

definition smActivate :: "nat list \<Rightarrow> SequenceMemory" where
  "smActivate sq =
     \<lparr>smGameState = playSequence sq (smInitial\<lparr>sequence := sq\<rparr>),
      smTimeouts = [], smCompleted = 0\<rparr>"

definition handleButtonTap :: "int \<Rightarrow> nat \<Rightarrow> SequenceMemory \<Rightarrow> SequenceMemory" where
  "handleButtonTap t buttonIndex w =
     (let gs = smGameState w in
      if phase gs \<noteq> Input \<or> isPlaying gs then w
      else
        (let currentStep = length (playerSequence gs);
             expectedButton = (if currentStep < length (sequence gs)
                               then Some (sequence gs ! currentStep) else None) in
         if Some buttonIndex = expectedButton then
           (let newPlayerSequence = playerSequence gs @ [buttonIndex];
                w1 = w\<lparr>smGameState := gs\<lparr>playerSequence := newPlayerSequence,
                          buttonFeedback := (buttonFeedback gs)(buttonIndex \<mapsto> Some TapCorrect)\<rparr>\<rparr>;
                w2 = w1\<lparr>smTimeouts := smTimeouts w1 @ [(t + 300, SMClearFeedback buttonIndex)]\<rparr>
            in if length newPlayerSequence = length (sequence gs)
               then w2\<lparr>smTimeouts := smTimeouts w2 @ [(t + 500, SMCallOnComplete)]\<rparr>
               else w2)
         else
           (let w1 = w\<lparr>smGameState :=
                          gs\<lparr>buttonFeedback := (buttonFeedback gs)(buttonIndex \<mapsto> Some TapWrong)\<rparr>\<rparr>
            in w1\<lparr>smTimeouts := smTimeouts w1 @ [(t + 500, SMResetPlayer)]\<rparr>)))"

fun smCallback :: "SMCallback \<Rightarrow> SequenceMemory \<Rightarrow> SequenceMemory" where
  "smCallback (SMClearFeedback buttonIndex) w =
     w\<lparr>smGameState := (smGameState w)
          \<lparr>buttonFeedback := (buttonFeedback (smGameState w))(buttonIndex \<mapsto> None)\<rparr>\<rparr>"
| "smCallback SMCallOnComplete w = w\<lparr>smCompleted := smCompleted w + 1\<rparr>"
| "smCallback SMResetPlayer w =
     w\<lparr>smGameState := (smGameState w)\<lparr>playerSequence := [], buttonFeedback := Map.empty\<rparr>\<rparr>"

text \<open>
  Timers run in the order of their due times, and in the order of scheduling when
  these are equal: \<open>smElapse t\<close> runs the callbacks due by the time \<open>t\<close>. No callback of
  this component schedules another one.
\<close>

definition smElapse :: "int \<Rightarrow> SequenceMemory \<Rightarrow> SequenceMemory" where
  "smElapse t w =
     fold (\<lambda>p. smCallback (snd p))
       (sort_key fst (filter (\<lambda>p. fst p \<le> t) (smTimeouts w)))
       (w\<lparr>smTimeouts := filter (\<lambda>p. \<not> fst p \<le> t) (smTimeouts w)\<rparr>)"

definition smSettle :: "SequenceMemory \<Rightarrow> SequenceMemory" where
  "smSettle w =
     fold (\<lambda>p. smCallback (snd p)) (sort_key fst (smTimeouts w)) (w\<lparr>smTimeouts := []\<rparr>)"

fun smRun :: "(int \<times> nat) list \<Rightarrow> SequenceMemory \<Rightarrow> SequenceMemory" where
  "smRun [] w = w"
| "smRun ((t, buttonIndex) # taps) w = smRun taps (handleButtonTap t buttonIndex (smElapse t w))"

section \<open>Invariants\<close>

text \<open>
  What holds in every state the events can reach: at most one timeout is pending, it
  is the one of 5000 ms that the timer cell holds, and the handle in the cell is older
  than the next one.
\<close>

definition timerInv :: "Container \<Rightarrow> bool" where
  "timerInv w =
     ((timeouts w = [] \<or> (\<exists>h. skipButtonTimer w = Some h \<and> timeouts w = [(h, 5000)])) \<and>
      (\<forall>h. skipButtonTimer w = Some h \<longrightarrow> h < nextHandle w))"

text \<open>
  What holds in addition in every state that a timely run can reach: an idle container
  is in its initial state, a level between 1 and 5 is active while playing, the level
  is 5 once the game is completed, nothing is pending when idle or completed, and every
  scheduled completion was scheduled while playing.
\<close>

definition containerInv :: "Container \<Rightarrow> bool" where
  "containerInv w =
     ((gameState (state w) = Idle \<longrightarrow> state w = initialState \<and> timeouts w = []) \<and>
      (gameState (state w) = Playing \<longrightarrow>
         1 \<le> currentLevel (state w) \<and> currentLevel (state w) \<le> 5) \<and>
      (gameState (state w) = Completed \<longrightarrow> currentLevel (state w) = 5 \<and> timeouts w = []) \<and>
      (\<forall>c \<in> set (completions w). gameState (fst c) = Playing) \<and>
      timerInv w)"

text \<open>
  A microgame counts as solved while it shows the feedback of a correct answer. Its
  invariant: the puzzle never changes, and the instance is in one of four situations:
  waiting for a tap, showing the feedback of a wrong tap with the callback that clears
  it pending, showing the feedback of the correct tap with the completion pending, or
  showing it with the completion delivered.
\<close>

definition dmSolved :: "DirectionMatch \<Rightarrow> bool" where
  "dmSolved w =
     (case feedback (dmGameState w) of
        None \<Rightarrow> False
      | Some i \<Rightarrow> i < length (arrows (dmGameState w)) \<and> isTarget (arrows (dmGameState w) ! i))"

definition dmInv :: "DirectionMatchState \<Rightarrow> DirectionMatch \<Rightarrow> bool" where
  "dmInv g w =
     (arrows (dmGameState w) = arrows g \<and> targetDirection (dmGameState w) = targetDirection g \<and>
      (case feedback (dmGameState w) of
         None \<Rightarrow> dmTimeouts w = [] \<and> dmCompleted w = 0
       | Some i \<Rightarrow>
           i < length (arrows g) \<and>
           (if isTarget (arrows g ! i)
            then (dmTimeouts w = [(500, DMCallOnComplete)] \<and> dmCompleted w = 0) \<or>
                 (dmTimeouts w = [] \<and> dmCompleted w = 1)
            else dmTimeouts w = [(500, DMClearFeedback)] \<and> dmCompleted w = 0)))"

definition cmSolved :: "ColorMatch \<Rightarrow> bool" where
  "cmSolved w = (cmFeedback w = FbCorrect)"

definition cmInv :: "ColorMatchState \<Rightarrow> ColorMatch \<Rightarrow> bool" where
  "cmInv g w =
     (options (cmGameState w) = options g \<and> targetColor (cmGameState w) = targetColor g \<and>
      (case cmFeedback w of
         FbNone \<Rightarrow> selectedIndex (cmGameState w) = None \<and> cmTimeouts w = [] \<and> cmCompleted w = 0
       | FbWrong \<Rightarrow> cmTimeouts w = [(500, CMClearWrong)] \<and> cmCompleted w = 0
       | FbCorrect \<Rightarrow>
           (cmTimeouts w = [(300, CMCallOnComplete)] \<and> cmCompleted w = 0) \<or>
           (cmTimeouts w = [] \<and> cmCompleted w = 1)))"

section \<open>The timers of the container\<close>

text \<open>
  The invariant of the timers holds after every event, whatever closure a handler runs
  with.
\<close>

lemmas handler_defs = startGame_def handleLevelComplete_def handleSkip_def
  endGame_def resetGame_def showSkip_def setState_def setTimeout_def clearTimeout_def clearIfSet_def
  rerender_def











section \<open>Timely runs\<close>

text \<open>
  \<^verbatim>\<open>handleLevelComplete\<close> does not read \<^verbatim>\<open>showSkipButton\<close>, so a timely scheduled
  completion does what the handler of the latest render does, and it runs while
  playing.
\<close>

lemma handleLevelComplete_showSkip:
  "handleLevelComplete (st\<lparr>showSkipButton := b\<rparr>) tm now nowEnd w
     = handleLevelComplete st tm now nowEnd w"
  by (simp add: handleLevelComplete_def endGame_def Let_def split: option.splits)

lemma containerInv_initial: "containerInv initialContainer"
  by (simp add: containerInv_def timerInv_def initialContainer_def initialState_def)

lemma containerInv_start:
  assumes "containerInv w" "gameState (state w) = Idle"
  shows "containerInv (rerender (skipButtonTimer w) (startGame now w))"
  using assms
  by (auto simp: containerInv_def timerInv_def handler_defs Let_def split: option.splits if_splits)

lemma containerInv_complete:
  assumes "containerInv w" "gameState (state w) = Playing"
  shows "containerInv (rerender (skipButtonTimer w)
           (handleLevelComplete (state w) (skipButtonTimer w) now nowEnd w))"
  using assms
  by (auto simp: containerInv_def timerInv_def handler_defs Let_def split: option.splits if_splits)

lemma containerInv_skip:
  assumes "containerInv w" "gameState (state w) = Playing"
  shows "containerInv (rerender (skipButtonTimer w)
           (handleSkip (state w) (skipButtonTimer w) now nowC nowEnd w))"
  using assms
  by (auto simp: containerInv_def timerInv_def handler_defs Let_def split: option.splits if_splits)

lemma containerInv_restart:
  assumes "containerInv w" "gameState (state w) = Completed"
  shows "containerInv (rerender (skipButtonTimer w) (resetGame (skipButtonTimer w) w))"
  using assms
  by (auto simp: containerInv_def timerInv_def handler_defs Let_def initialState_def
        split: option.splits if_splits)

lemma containerInv_fire:
  assumes "containerInv w" "h \<in> set (map fst (timeouts w))"
  shows "containerInv (showSkip (clearTimeout h w))"
  using assms
  by (cases "gameState (state w)")
     (auto simp: containerInv_def timerInv_def handler_defs Let_def split: option.splits if_splits)

lemma containerInv_solve:
  assumes "containerInv w" "gameState (state w) = Playing"
  shows "containerInv (w\<lparr>completions := completions w @ [(state w, skipButtonTimer w)]\<rparr>)"
  using assms by (auto simp: containerInv_def timerInv_def)

lemma containerInv_drop:
  assumes "containerInv w"
  shows "containerInv (w\<lparr>completions := take k (completions w) @ drop (Suc k) (completions w)\<rparr>)"
proof -
  have "set (take k (completions w) @ drop (Suc k) (completions w)) \<subseteq> set (completions w)"
    using set_take_subset [of k "completions w"] set_drop_subset [of "Suc k" "completions w"]
    by auto
  with assms show ?thesis
    by (auto simp: containerInv_def timerInv_def)
qed

lemma timely_playing:
  assumes "containerInv w" "timely (LateComplete k now nowEnd) w"
  shows "gameState (state w) = Playing"
proof -
  from assms(2) have k: "k < length (completions w)"
    and eq: "fst (completions w ! k) =
               (state w)\<lparr>showSkipButton := showSkipButton (fst (completions w ! k))\<rparr>"
    by simp_all
  from k have "completions w ! k \<in> set (completions w)" by simp
  with assms(1) have "gameState (fst (completions w ! k)) = Playing"
    by (simp add: containerInv_def)
  with eq show ?thesis
    by (metis GameContainerState.select_convs(1) GameContainerState.surjective
          GameContainerState.update_convs(6))
qed


lemma timely_late_step:
  assumes "timely (LateComplete k now nowEnd) w" "step (LateComplete k now nowEnd) w = Some w'"
  shows "w' = rerender (skipButtonTimer w)
           (handleLevelComplete (state w) (skipButtonTimer w) now nowEnd
              (w\<lparr>completions := take k (completions w) @ drop (Suc k) (completions w)\<rparr>))"
proof -
  from assms(1) have k: "k < length (completions w)"
    and eq: "fst (completions w ! k) =
               (state w)\<lparr>showSkipButton := showSkipButton (fst (completions w ! k))\<rparr>"
    and tm: "snd (completions w ! k) = skipButtonTimer w"
    by simp_all
  from assms(2) k
  have "w' = rerender (skipButtonTimer w)
           (handleLevelComplete (fst (completions w ! k)) (snd (completions w ! k)) now nowEnd
              (w\<lparr>completions := take k (completions w) @ drop (Suc k) (completions w)\<rparr>))"
    by (simp add: step_def Let_def)
  also have "handleLevelComplete (fst (completions w ! k)) (snd (completions w ! k)) now nowEnd
              (w\<lparr>completions := take k (completions w) @ drop (Suc k) (completions w)\<rparr>)
           = handleLevelComplete (state w) (skipButtonTimer w) now nowEnd
              (w\<lparr>completions := take k (completions w) @ drop (Suc k) (completions w)\<rparr>)"
    by (subst eq, subst tm) (rule handleLevelComplete_showSkip)
  finally show ?thesis .
qed

lemma containerInv_step:
  assumes "containerInv w" "step e w = Some w'" "timely e w"
  shows "containerInv w'"
proof (cases e)
  case (Start now)
  with assms show ?thesis
    by (auto simp: step_def Let_def containerInv_start split: if_splits)
next
  case (Complete now nowEnd)
  with assms show ?thesis
    by (auto simp: step_def Let_def containerInv_complete split: if_splits)
next
  case (Skip now nowC nowEnd)
  with assms show ?thesis
    by (auto simp: step_def Let_def containerInv_skip split: if_splits)
next
  case Restart
  with assms show ?thesis
    by (auto simp: step_def Let_def containerInv_restart split: if_splits)
next
  case (TimerFire h)
  with assms(2) have "h \<in> set (map fst (timeouts w))" and "w' = showSkip (clearTimeout h w)"
    by (simp_all add: step_def Let_def split: if_splits)
  with assms(1) show ?thesis
    using containerInv_fire by blast
next
  case Solve
  with assms show ?thesis
    by (auto simp: step_def Let_def containerInv_solve split: if_splits)
next
  case (LateComplete k now nowEnd)
  define w1 where "w1 = w\<lparr>completions := take k (completions w) @ drop (Suc k) (completions w)\<rparr>"
  have inv1: "containerInv w1"
    unfolding w1_def using assms(1) by (rule containerInv_drop)
  have pl: "gameState (state w1) = Playing"
    using timely_playing [OF assms(1)] assms(3) LateComplete by (simp add: w1_def)
  have "w' = rerender (skipButtonTimer w1)
               (handleLevelComplete (state w1) (skipButtonTimer w1) now nowEnd w1)"
    using timely_late_step assms(2,3) LateComplete by (simp add: w1_def)
  with containerInv_complete [OF inv1 pl] show ?thesis by simp
qed

lemma containerInv_run:
  "containerInv w \<Longrightarrow> timelyRun es w \<Longrightarrow> run es w = Some w' \<Longrightarrow> containerInv w'"
proof (induction es arbitrary: w)
  case Nil
  then show ?case by simp
next
  case (Cons e es)
  from Cons.prems(3) obtain w1 where s: "step e w = Some w1" and r: "run es w1 = Some w'"
    by (auto split: option.splits)
  from Cons.prems(2) s have t: "timely e w" and tr: "timelyRun es w1"
    by simp_all
  from Cons.IH [OF containerInv_step [OF Cons.prems(1) s t] tr r] show ?case .
qed

lemmas eval_defs = step_def handler_defs initialContainer_def initialState_def
  arrayWrite_def arrayRead_def defaultResult_def Let_def

section \<open>Skipping and completing a level\<close>

text \<open>
  What the two handlers leave in the state, for a closure \<open>st\<close> and the latest state
  \<open>state w\<close>. Below level 5 both advance and store the outcomes of the closure with the
  level marked as completed, the skip adding its penalty; from level 5 on both end the
  game with the total computed from the closure, and the outcomes are those of the
  latest state for a completion, those of the closure with the level marked as skipped
  for a skip.
\<close>

lemma complete_below_five:
  assumes "currentLevel st < 5"
  shows "state (handleLevelComplete st tm now nowEnd w) =
           (state w)\<lparr>currentLevel := currentLevel (state w) + 1,
                      levelResults := arrayWrite (levelResults st) (currentLevel st - 1)
                        \<lparr>completed = True, skipped = False,
                         timeSpent = (case startTime st of None \<Rightarrow> 0
                                      | Some s \<Rightarrow> if s \<noteq> 0 then now - s else 0)\<rparr>,
                      showSkipButton := False\<rparr>"
  using assms by (simp add: handler_defs Let_def split: option.splits)

lemma complete_at_five:
  assumes "5 \<le> currentLevel st"
  shows "state (handleLevelComplete st tm now nowEnd w) =
           (state w)\<lparr>gameState := Completed,
                      totalTime := (case startTime st of None \<Rightarrow> totalTime st
                                    | Some s \<Rightarrow> if s \<noteq> 0 then nowEnd - s + totalTime st
                                               else totalTime st),
                      showSkipButton := False\<rparr>"
  using assms by (simp add: handler_defs Let_def split: option.splits)

lemma skip_below_five:
  assumes "currentLevel st < 5"
  shows "state (handleSkip st tm now nowComplete nowEnd w) =
           (state w)\<lparr>totalTime := totalTime (state w) + 30000,
                      currentLevel := currentLevel (state w) + 1,
                      levelResults := arrayWrite (levelResults st) (currentLevel st - 1)
                        \<lparr>completed = True, skipped = False,
                         timeSpent = (case startTime st of None \<Rightarrow> 0
                                      | Some s \<Rightarrow> if s \<noteq> 0 then nowComplete - s else 0)\<rparr>,
                      showSkipButton := False\<rparr>"
  using assms by (simp add: handler_defs Let_def split: option.splits)

lemma skip_at_five:
  assumes "5 \<le> currentLevel st"
  shows "state (handleSkip st tm now nowComplete nowEnd w) =
           (state w)\<lparr>levelResults := arrayWrite (levelResults st) (currentLevel st - 1)
                        \<lparr>completed = False, skipped = True,
                         timeSpent = (case startTime st of None \<Rightarrow> 0
                                      | Some s \<Rightarrow> if s \<noteq> 0 then now - s else 0)\<rparr>,
                      gameState := Completed,
                      totalTime := (case startTime st of None \<Rightarrow> totalTime st
                                    | Some s \<Rightarrow> if s \<noteq> 0 then nowEnd - s + totalTime st
                                               else totalTime st),
                      showSkipButton := False\<rparr>"
  using assms by (simp add: handler_defs Let_def split: option.splits)

text \<open>
  C1. Skipping level \<open>i\<close> should leave \<^verbatim>\<open>levelResults[i] = {completed: false, skipped: true}\<close>
  and add 30000 ms, and the advancement that follows should not record the outcome
  again. \<^verbatim>\<open>handleSkip\<close> queues that outcome and the penalty and then calls
  \<^verbatim>\<open>handleLevelComplete\<close>, whose closure still holds the state from before the skip:
  below level 5 its update writes \<^verbatim>\<open>levelResults\<close> again, from that state, with the
  level marked as completed. The game starts at 1000, the skip timer fires, and the
  player skips level 1 at 7000: level 2 is active and the penalty is 30000, but the
  outcome of level 1 reads completed and not skipped.
\<close>

theorem skip_outcome_overwritten:
  "map_option (\<lambda>w. (gameState (state w), currentLevel (state w), totalTime (state w),
                     arrayRead (levelResults (state w)) 0))
     (run [Start 1000, TimerFire 1, Skip 7000 7000 7000] initialContainer)
   = Some (Playing, 2, 30000, Some \<lparr>completed = True, skipped = False, timeSpent = 6000\<rparr>)"
  by (simp add: eval_defs)

text \<open>
  C2. Completing level \<open>i\<close> should leave
  \<^verbatim>\<open>levelResults[i] = {completed: true, skipped: false, timeSpent}\<close>, for level 5 as well.
  \<^verbatim>\<open>handleLevelComplete\<close> builds the new outcomes and, at level 5, calls \<^verbatim>\<open>endGame\<close>,
  which does not store them. Five completions in a row: the game is completed, the
  first four outcomes are recorded, the fifth is still the default.
\<close>

theorem last_level_outcome_not_recorded:
  "map_option (\<lambda>w. (gameState (state w), levelResults (state w)))
     (run [Start 1000, Complete 2000 2000, Complete 3000 3000, Complete 4000 4000,
           Complete 5000 5000, Complete 6000 6000] initialContainer)
   = Some (Completed,
           [Some \<lparr>completed = True, skipped = False, timeSpent = 1000\<rparr>,
            Some \<lparr>completed = True, skipped = False, timeSpent = 2000\<rparr>,
            Some \<lparr>completed = True, skipped = False, timeSpent = 3000\<rparr>,
            Some \<lparr>completed = True, skipped = False, timeSpent = 4000\<rparr>,
            Some \<lparr>completed = False, skipped = False, timeSpent = 0\<rparr>])"
  by code_simp

text \<open>
  C3. After the fifth level the final time should be the elapsed time plus the penalty
  of every skip, the skip of level 5 included. \<^verbatim>\<open>endGame\<close>, called at the end of
  \<^verbatim>\<open>handleSkip\<close>, computes the final time from the \<^verbatim>\<open>totalTime\<close> of its closure, which
  does not hold the penalty just queued, and its update replaces the field. Four
  completions, then the skip timer fires and level 5 is skipped at 11000, 10000 ms
  after the start: the final time is 10000, less than the penalty of 30000.
\<close>

theorem last_level_skip_penalty_lost:
  "map_option (\<lambda>w. (gameState (state w), totalTime (state w),
                     arrayRead (levelResults (state w)) 4))
     (run [Start 1000, Complete 2000 2000, Complete 3000 3000, Complete 4000 4000,
           Complete 5000 5000, TimerFire 5, Skip 11000 11000 11000] initialContainer)
   = Some (Completed, 10000, Some \<lparr>completed = False, skipped = True, timeSpent = 10000\<rparr>)"
  by (simp add: eval_defs)

section \<open>The level index\<close>

text \<open>
  C4, as stated: every completion or skip taken while playing adds exactly 1 to
  \<^verbatim>\<open>currentLevel\<close>. At level 5 the guard \<^verbatim>\<open>state.currentLevel >= 5\<close> ends the game
  instead: after four completions level 5 is active, and the fifth completion leaves
  the index at 5, not 6.
\<close>

theorem level_five_not_incremented:
  "map_option (\<lambda>w. (gameState (state w), currentLevel (state w)))
     (run [Start 1000, Complete 2000 2000, Complete 3000 3000, Complete 4000 4000,
           Complete 5000 5000] initialContainer) = Some (Playing, 5)
   \<and> map_option (\<lambda>w. (gameState (state w), currentLevel (state w)))
     (run [Start 1000, Complete 2000 2000, Complete 3000 3000, Complete 4000 4000,
           Complete 5000 5000, Complete 6000 6000] initialContainer) = Some (Completed, 5)"
  by (simp add: eval_defs)

text \<open>
  The guard reads the level of the handler's closure. A scheduled completion that runs
  late finds another state than its closure holds: the player solves level 4, skips it
  before the scheduled call runs, and level 5 is active when the call of the level 4
  render arrives; its closure says level 4, so it adds 1 to the latest level, and the
  game is playing at level 6.
\<close>

lemma late_completion_reaches_level_six:
  "map_option (\<lambda>w. (gameState (state w), currentLevel (state w)))
     (run [Start 1000, Complete 2000 2000, Complete 3000 3000, Complete 4000 4000,
           TimerFire 4, Solve, Skip 9300 9300 9300] initialContainer) = Some (Playing, 5)
   \<and> map_option (\<lambda>w. (gameState (state w), currentLevel (state w)))
     (run [Start 1000, Complete 2000 2000, Complete 3000 3000, Complete 4000 4000,
           TimerFire 4, Solve, Skip 9300 9300 9300, LateComplete 0 9500 9500] initialContainer)
       = Some (Playing, 6)"
  by (simp add: eval_defs)

lemma step_level:
  assumes "containerInv w" "step e w = Some w'" "timely e w"
  shows "((\<exists>a b. e = Complete a b) \<or> (\<exists>a b c. e = Skip a b c) \<or> (\<exists>k a b. e = LateComplete k a b) \<longrightarrow>
            (if currentLevel (state w) < 5
             then gameState (state w') = Playing \<and> currentLevel (state w') = currentLevel (state w) + 1
             else gameState (state w') = Completed \<and> currentLevel (state w') = currentLevel (state w)))
         \<and> (e \<noteq> Restart \<longrightarrow> currentLevel (state w) \<le> currentLevel (state w'))"
proof (cases e)
  case (LateComplete k now nowEnd)
  have pl: "gameState (state w) = Playing"
    using timely_playing [OF assms(1)] assms(3) LateComplete by simp
  from timely_late_step assms(2,3) LateComplete
  have "w' = rerender (skipButtonTimer w)
           (handleLevelComplete (state w) (skipButtonTimer w) now nowEnd
              (w\<lparr>completions := take k (completions w) @ drop (Suc k) (completions w)\<rparr>))"
    by simp
  with pl LateComplete show ?thesis
    by (auto simp: handler_defs Let_def split: if_splits option.splits)
qed (use assms in \<open>auto simp: step_def handler_defs Let_def containerInv_def initialState_def
           split: if_splits option.splits\<close>)

text \<open>
  C4, amended: as long as every scheduled completion that runs is timely, a level
  between 1 and 5 is active in every reachable playing state; a completion or skip
  below level 5 adds exactly 1 to \<^verbatim>\<open>currentLevel\<close> and keeps playing, one at level 5
  leaves the index at 5 and completes the game; and no event other than the restart
  lowers the index.
\<close>

theorem level_progression:
  assumes "run es initialContainer = Some w" and "timelyRun es initialContainer"
    and "step e w = Some w'" and "timely e w"
  shows "(gameState (state w) = Playing \<longrightarrow> 1 \<le> currentLevel (state w) \<and> currentLevel (state w) \<le> 5)
       \<and> ((\<exists>a b. e = Complete a b) \<or> (\<exists>a b c. e = Skip a b c) \<or> (\<exists>k a b. e = LateComplete k a b) \<longrightarrow>
            (if currentLevel (state w) < 5
             then gameState (state w') = Playing \<and> currentLevel (state w') = currentLevel (state w) + 1
             else gameState (state w') = Completed \<and> currentLevel (state w') = currentLevel (state w)))
       \<and> (e \<noteq> Restart \<longrightarrow> currentLevel (state w) \<le> currentLevel (state w'))"
proof -
  have inv: "containerInv w"
    using containerInv_run [OF containerInv_initial assms(2) assms(1)] .
  then have "gameState (state w) = Playing \<longrightarrow> 1 \<le> currentLevel (state w) \<and> currentLevel (state w) \<le> 5"
    by (simp add: containerInv_def)
  with step_level [OF inv assms(3) assms(4)] show ?thesis by blast
qed

theorem level_progression_witness:
  "run [Start 1000, Solve, TimerFire 1] initialContainer
     = Some (the (run [Start 1000, Solve, TimerFire 1] initialContainer))
   \<and> timelyRun [Start 1000, Solve, TimerFire 1] initialContainer
   \<and> step (LateComplete 0 7000 7000) (the (run [Start 1000, Solve, TimerFire 1] initialContainer))
       = Some (the (step (LateComplete 0 7000 7000)
                 (the (run [Start 1000, Solve, TimerFire 1] initialContainer))))
   \<and> timely (LateComplete 0 7000 7000) (the (run [Start 1000, Solve, TimerFire 1] initialContainer))
   \<and> gameState (state (the (run [Start 1000, Solve, TimerFire 1] initialContainer))) = Playing
   \<and> currentLevel (state (the (run [Start 1000, Solve, TimerFire 1] initialContainer))) = 1
   \<and> currentLevel (state (the (step (LateComplete 0 7000 7000)
        (the (run [Start 1000, Solve, TimerFire 1] initialContainer))))) = 2"
  using level_progression [of "[Start 1000, Solve, TimerFire 1]"
          "the (run [Start 1000, Solve, TimerFire 1] initialContainer)"
          "LateComplete 0 7000 7000"
          "the (step (LateComplete 0 7000 7000)
             (the (run [Start 1000, Solve, TimerFire 1] initialContainer)))"]
  by (simp add: eval_defs)

section \<open>Restart\<close>

text \<open>
  C5. \<^verbatim>\<open>resetGame\<close> replaces the state, whatever it was (completed, playing or idle),
  by the defaults: idle, level 1, no start time, total time 0, five default outcomes,
  skip button hidden. The restart event, which the results screen offers once the game
  is completed, yields exactly that state.
\<close>

theorem restart_resets:
  "state (resetGame tm w) =
     \<lparr>gameState = Idle, currentLevel = 1, startTime = None, totalTime = 0,
      levelResults = replicate 5 (Some \<lparr>completed = False, skipped = False, timeSpent = 0\<rparr>),
      showSkipButton = False\<rparr>
   \<and> (gameState (state w) = Completed \<longrightarrow>
        map_option state (step Restart w) =
          Some \<lparr>gameState = Idle, currentLevel = 1, startTime = None, totalTime = 0,
                levelResults = replicate 5 (Some \<lparr>completed = False, skipped = False, timeSpent = 0\<rparr>),
                showSkipButton = False\<rparr>)"
  by (auto simp: step_def handler_defs initialState_def defaultResult_def Let_def split: option.splits)

theorem restart_resets_witness:
  "gameState (state (the (run [Start 1000, TimerFire 1, Skip 7000 7000 7000, Complete 8000 8000,
        Complete 9000 9000, Complete 10000 10000, Complete 11000 11000] initialContainer))) = Completed
   \<and> totalTime (state (the (run [Start 1000, TimerFire 1, Skip 7000 7000 7000, Complete 8000 8000,
        Complete 9000 9000, Complete 10000 10000, Complete 11000 11000] initialContainer))) = 40000
   \<and> map_option state (step Restart (the (run [Start 1000, TimerFire 1, Skip 7000 7000 7000,
        Complete 8000 8000, Complete 9000 9000, Complete 10000 10000, Complete 11000 11000]
        initialContainer))) =
       Some \<lparr>gameState = Idle, currentLevel = 1, startTime = None, totalTime = 0,
             levelResults = replicate 5 (Some \<lparr>completed = False, skipped = False, timeSpent = 0\<rparr>),
             showSkipButton = False\<rparr>"
  using restart_resets [of "skipButtonTimer (the (run [Start 1000, TimerFire 1, Skip 7000 7000 7000,
        Complete 8000 8000, Complete 9000 9000, Complete 10000 10000, Complete 11000 11000]
        initialContainer))"
      "the (run [Start 1000, TimerFire 1, Skip 7000 7000 7000, Complete 8000 8000,
        Complete 9000 9000, Complete 10000 10000, Complete 11000 11000] initialContainer)"]
  by (simp add: eval_defs)

section \<open>The skip button and its timer\<close>






section \<open>Time computations\<close>

text \<open>
  With the start time of the closure unset, every time computation takes the elapsed
  part as zero: the time spent recorded for a completion or a skip is 0, and the total
  that \<^verbatim>\<open>endGame\<close> stores is the \<^verbatim>\<open>totalTime\<close> of the closure alone. That holds when
  the game ends on a skip as well, where the closure does not hold the penalty of the
  skip.
\<close>

lemma unset_start_counts_as_zero:
  assumes "startTime st = None"
  shows "state (endGame st tm now w) =
           (state w)\<lparr>gameState := Completed, totalTime := totalTime st, showSkipButton := False\<rparr>
       \<and> (currentLevel st < 5 \<longrightarrow>
            state (handleLevelComplete st tm now nowEnd w) =
              (state w)\<lparr>currentLevel := currentLevel (state w) + 1,
                         levelResults := arrayWrite (levelResults st) (currentLevel st - 1)
                           \<lparr>completed = True, skipped = False, timeSpent = 0\<rparr>,
                         showSkipButton := False\<rparr>)
       \<and> (5 \<le> currentLevel st \<longrightarrow>
            state (handleLevelComplete st tm now nowEnd w) =
              (state w)\<lparr>gameState := Completed, totalTime := totalTime st, showSkipButton := False\<rparr>)
       \<and> (currentLevel st < 5 \<longrightarrow>
            state (handleSkip st tm now nowComplete nowEnd w) =
              (state w)\<lparr>totalTime := totalTime (state w) + 30000,
                         currentLevel := currentLevel (state w) + 1,
                         levelResults := arrayWrite (levelResults st) (currentLevel st - 1)
                           \<lparr>completed = True, skipped = False, timeSpent = 0\<rparr>,
                         showSkipButton := False\<rparr>)
       \<and> (5 \<le> currentLevel st \<longrightarrow>
            state (handleSkip st tm now nowComplete nowEnd w) =
              (state w)\<lparr>levelResults := arrayWrite (levelResults st) (currentLevel st - 1)
                           \<lparr>completed = False, skipped = True, timeSpent = 0\<rparr>,
                         gameState := Completed, totalTime := totalTime st,
                         showSkipButton := False\<rparr>)"
  using assms
  by (auto simp: handler_defs Let_def split: option.splits)


section \<open>One field for the penalty and the final time\<close>






section \<open>The progress indicator\<close>

text \<open>
  C9. With a current level between 1 and 5 and five outcomes, the status of slot \<open>i\<close>,
  read at the 0-based index \<open>i - 1\<close>, is: below the current level, completed when the
  outcome is completed, else skipped when it is skipped (and pending when it is
  neither); current at the current level; pending above it. The status is a function
  of the current level, the outcomes and the slot alone.
\<close>

theorem getLevelStatus_rule:
  assumes "1 \<le> cur" "cur \<le> 5" "length results = 5" "1 \<le> i" "i \<le> 5"
    and "arrayRead results (i - 1) = Some r"
  shows "(i < cur \<and> completed r \<longrightarrow> getLevelStatus cur results (i - 1) = Some ''completed'')
       \<and> (i < cur \<and> \<not> completed r \<and> skipped r \<longrightarrow> getLevelStatus cur results (i - 1) = Some ''skipped'')
       \<and> (i < cur \<and> \<not> completed r \<and> \<not> skipped r \<longrightarrow> getLevelStatus cur results (i - 1) = Some ''pending'')
       \<and> (i = cur \<longrightarrow> getLevelStatus cur results (i - 1) = Some ''current'')
       \<and> (cur < i \<longrightarrow> getLevelStatus cur results (i - 1) = Some ''pending'')"
  using assms by (auto simp: getLevelStatus_def)

theorem getLevelStatus_rule_witness:
  "arrayRead [Some \<lparr>completed = True, skipped = False, timeSpent = 1000\<rparr>,
              Some \<lparr>completed = False, skipped = True, timeSpent = 7000\<rparr>,
              Some defaultResult, Some defaultResult, Some defaultResult] (2 - 1)
     = Some \<lparr>completed = False, skipped = True, timeSpent = 7000\<rparr>
   \<and> getLevelStatus 3
       [Some \<lparr>completed = True, skipped = False, timeSpent = 1000\<rparr>,
        Some \<lparr>completed = False, skipped = True, timeSpent = 7000\<rparr>,
        Some defaultResult, Some defaultResult, Some defaultResult] (2 - 1) = Some ''skipped''"
  using getLevelStatus_rule [of 3
          "[Some \<lparr>completed = True, skipped = False, timeSpent = 1000\<rparr>,
            Some \<lparr>completed = False, skipped = True, timeSpent = 7000\<rparr>,
            Some defaultResult, Some defaultResult, Some defaultResult]" 2
          "\<lparr>completed = False, skipped = True, timeSpent = 7000\<rparr>"]
  by (simp add: arrayRead_def)

section \<open>The completion signal of the microgames\<close>

subsection \<open>DirectionMatch\<close>

lemma dmInv_activate: "dmInv g (dmActivate g)"
  by (simp add: dmInv_def dmActivate_def)

lemma dmInv_tap:
  assumes "dmInv g w" "handleArrowTap index w = Some w'"
  shows "dmInv g w'"
proof (cases "feedback (dmGameState w)")
  case None
  with assms show ?thesis
    by (simp add: dmInv_def handleArrowTap_def Let_def split: if_splits) auto
next
  case (Some i)
  with assms show ?thesis
    by (simp add: handleArrowTap_def)
qed

lemma dmInv_timeout:
  assumes "dmInv g w" "dmStep (DMTimeout k) w = Some w'"
  shows "dmInv g w'"
proof (cases "feedback (dmGameState w)")
  case None
  with assms show ?thesis
    by (simp add: dmInv_def)
next
  case (Some i)
  from assms(2) have k: "k < length (dmTimeouts w)"
    by (simp split: if_splits)
  show ?thesis
  proof (cases "isTarget (arrows g ! i)")
    case True
    with assms(1) Some k have ts: "dmTimeouts w = [(500, DMCallOnComplete)]" and c: "dmCompleted w = 0"
      by (auto simp: dmInv_def)
    with k have "k = 0" by simp
    with assms ts c Some True show ?thesis
      by (auto simp: dmInv_def)
  next
    case False
    with assms(1) Some have ts: "dmTimeouts w = [(500, DMClearFeedback)]" and c: "dmCompleted w = 0"
      by (auto simp: dmInv_def)
    with k have "k = 0" by simp
    with assms ts c Some False show ?thesis
      by (auto simp: dmInv_def)
  qed
qed

lemma dmInv_step:
  assumes "dmInv g w" "dmStep e w = Some w'"
  shows "dmInv g w'"
proof (cases e)
  case (ArrowTap index)
  with assms show ?thesis using dmInv_tap by simp
next
  case (DMTimeout k)
  with assms show ?thesis using dmInv_timeout by blast
qed


lemma dmInv_run: "dmInv g w \<Longrightarrow> dmRun es w = Some w' \<Longrightarrow> dmInv g w'"
proof (induction es arbitrary: w)
  case Nil
  then show ?case by simp
next
  case (Cons e es)
  from Cons.prems(2) obtain w1 where "dmStep e w = Some w1" and "dmRun es w1 = Some w'"
    by (auto split: option.splits)
  with Cons.IH dmInv_step [OF Cons.prems(1)] show ?case by blast
qed

lemma dm_completes_at_most_once:
  assumes "dmRun es (dmActivate g) = Some w"
  shows "dmCompleted w \<le> 1
       \<and> dmCompleted w + length (filter (\<lambda>p. snd p = DMCallOnComplete) (dmTimeouts w))
           = (if dmSolved w then 1 else 0)"
proof -
  have inv: "dmInv g w"
    using dmInv_run [OF dmInv_activate assms] .
  show ?thesis
  proof (cases "feedback (dmGameState w)")
    case None
    with inv show ?thesis by (simp add: dmInv_def dmSolved_def)
  next
    case (Some i)
    with inv show ?thesis
      by (cases "isTarget (arrows g ! i)") (auto simp: dmInv_def dmSolved_def)
  qed
qed

lemma dm_wrong_tap_recovers:
  assumes "i < length (arrows g)" "\<not> isTarget (arrows g ! i)"
  shows "dmRun [ArrowTap i, DMTimeout 0] (dmActivate g) = Some (dmActivate g)"
  using assms by (simp add: handleArrowTap_def dmActivate_def Let_def)

lemma dm_two_wrong_then_correct:
  assumes "i < length (arrows g)" "\<not> isTarget (arrows g ! i)"
    and "j < length (arrows g)" "\<not> isTarget (arrows g ! j)"
    and "k < length (arrows g)" "isTarget (arrows g ! k)"
  shows "map_option dmCompleted
           (dmRun [ArrowTap i, DMTimeout 0, ArrowTap j, DMTimeout 0, ArrowTap k, DMTimeout 0]
              (dmActivate g)) = Some 1"
  using assms by (simp add: handleArrowTap_def dmActivate_def Let_def)

subsection \<open>ColorMatch\<close>

lemma cmInv_activate: "cmInv g (cmActivate g)"
  by (simp add: cmInv_def cmActivate_def)

lemma cmInv_tap:
  assumes "cmInv g w" "handleOptionTap index w = Some w'"
  shows "cmInv g w'"
proof (cases "cmFeedback w = FbNone")
  case True
  with assms show ?thesis
    by (simp add: cmInv_def handleOptionTap_def Let_def split: if_splits) auto
next
  case False
  with assms show ?thesis
    by (simp add: handleOptionTap_def)
qed

lemma cmInv_timeout:
  assumes "cmInv g w" "cmStep (CMTimeout k) w = Some w'"
  shows "cmInv g w'"
proof -
  from assms(2) have k: "k < length (cmTimeouts w)"
    by (simp split: if_splits)
  show ?thesis
  proof (cases "cmFeedback w")
    case FbNone
    with assms(1) k show ?thesis by (simp add: cmInv_def)
  next
    case FbWrong
    with assms(1) have ts: "cmTimeouts w = [(500, CMClearWrong)]" and c: "cmCompleted w = 0"
      by (auto simp: cmInv_def)
    with k have "k = 0" by simp
    with assms ts c FbWrong show ?thesis
      by (auto simp: cmInv_def)
  next
    case FbCorrect
    with assms(1) k have ts: "cmTimeouts w = [(300, CMCallOnComplete)]" and c: "cmCompleted w = 0"
      by (auto simp: cmInv_def)
    with k have "k = 0" by simp
    with assms ts c FbCorrect show ?thesis
      by (auto simp: cmInv_def)
  qed
qed

lemma cmInv_step:
  assumes "cmInv g w" "cmStep e w = Some w'"
  shows "cmInv g w'"
proof (cases e)
  case (OptionTap index)
  with assms show ?thesis using cmInv_tap by simp
next
  case (CMTimeout k)
  with assms show ?thesis using cmInv_timeout by blast
qed

lemma cmInv_run: "cmInv g w \<Longrightarrow> cmRun es w = Some w' \<Longrightarrow> cmInv g w'"
proof (induction es arbitrary: w)
  case Nil
  then show ?case by simp
next
  case (Cons e es)
  from Cons.prems(2) obtain w1 where "cmStep e w = Some w1" and "cmRun es w1 = Some w'"
    by (auto split: option.splits)
  with Cons.IH cmInv_step [OF Cons.prems(1)] show ?case by blast
qed

lemma cm_completes_at_most_once:
  assumes "cmRun es (cmActivate g) = Some w"
  shows "cmCompleted w \<le> 1
       \<and> cmCompleted w + length (filter (\<lambda>p. snd p = CMCallOnComplete) (cmTimeouts w))
           = (if cmSolved w then 1 else 0)"
proof -
  have inv: "cmInv g w"
    using cmInv_run [OF cmInv_activate assms] .
  then show ?thesis
    by (cases "cmFeedback w") (auto simp: cmInv_def cmSolved_def)
qed

lemma cm_wrong_tap_recovers:
  assumes "i < length (options g)" "\<not> isCorrect (options g ! i)"
  shows "cmRun [OptionTap i, CMTimeout 0] (cmActivate g) = Some (cmActivate g)"
  using assms by (simp add: handleOptionTap_def cmActivate_def Let_def)

lemma cm_two_wrong_then_correct:
  assumes "i < length (options g)" "\<not> isCorrect (options g ! i)"
    and "j < length (options g)" "\<not> isCorrect (options g ! j)"
    and "k < length (options g)" "isCorrect (options g ! k)"
  shows "map_option cmCompleted
           (cmRun [OptionTap i, CMTimeout 0, OptionTap j, CMTimeout 0, OptionTap k, CMTimeout 0]
              (cmActivate g)) = Some 1"
  using assms by (simp add: handleOptionTap_def cmActivate_def Let_def)

subsection \<open>SequenceMemory\<close>

text \<open>
  C7. A microgame instance should invoke its completion callback at most once,
  whatever the player does. DirectionMatch and ColorMatch do, as shown above: they
  ignore every tap while feedback is shown. SequenceMemory accepts taps while the reset
  that follows a wrong tap is still pending. The sequence is 0, 1, 2, 3. The player
  taps button 1 at 1000, which is wrong and schedules the reset for 1500, then taps
  0, 1, 2, 3 at 1110, 1220, 1330 and 1440, which schedules the completion for 1940;
  the reset empties the player's sequence at 1500, and the player taps 0, 1, 2, 3
  again at 1510, 1620, 1730 and 1840, which schedules a second completion for 2340.
  Both run: the callback is invoked twice.
\<close>

theorem sequence_memory_completes_twice:
  "smCompleted (smSettle (smRun
      [(1000, 1), (1110, 0), (1220, 1), (1330, 2), (1440, 3),
       (1510, 0), (1620, 1), (1730, 2), (1840, 3)]
      (smActivate [0, 1, 2, 3]))) = 2"
  by code_simp

end
